theory Spec2Isabelle
  imports Complex_Main "HOL-Library.Multiset"
begin

section \<open>Errors raised by the Python code\<close>

text \<open>
  Exceptions of the source are values: \<open>IndexError\<close> (a tuple index or a class index out
  of range) and \<open>ValueError\<close> (unpacking the wrong number of values, \<open>np.max\<close> of an
  empty array).
\<close>

datatype error = IndexError | ValueError

section \<open>\<open>Dataset/dataset.py\<close>: \<open>VOCDataset.filter\<close>\<close>

text \<open>
  A box is one row \<open>[x1, y1, x2, y2]\<close> of the \<open>(n, 4)\<close> array of corner coordinates.
  Coordinates are real numbers (the annotation parser produces integers, the transforms
  produce fractions of the image size).
\<close>

type_synonym vec4 = "real \<times> real \<times> real \<times> real"

type_synonym box = vec4

fun coords :: "vec4 \<Rightarrow> real list" where
  "coords (x1, y1, x2, y2) = [x1, y1, x2, y2]"

text \<open>
  Lines 170-177: height and width from \<open>img.shape\<close>.
  A shape of length 2 is \<open>(h, w)\<close>. Otherwise \<open>shape[0] > shape[2]\<close> is evaluated
  (IndexError for fewer than three entries); when it holds the image is taken as HWC and
  \<open>h, w = shape[:2]\<close>, else as CHW and \<open>h, w = shape[1:]\<close>, which unpacks only when
  exactly two entries remain (ValueError otherwise).
\<close>

definition img_hw :: "nat list \<Rightarrow> error + nat \<times> nat" where
  "img_hw shape =
     (if length shape = 2 then Inr (shape ! 0, shape ! 1)
      else if length shape < 3 then Inl IndexError
      else if shape ! 0 > shape ! 2 then Inr (shape ! 0, shape ! 1)
      else if length shape = 3 then Inr (shape ! 1, shape ! 2)
      else Inl ValueError)"

text \<open>\<open>np.max(boxes)\<close>: the largest entry of the whole array; ValueError when it has none.\<close>

definition np_max :: "box list \<Rightarrow> error + real" where
  "np_max boxes =
     (case concat (map coords boxes) of
        [] \<Rightarrow> Inl ValueError
      | c # cs \<Rightarrow> Inr (fold max cs c))"

text \<open>
  Lines 182-185, the two \<open>continue\<close> tests of the loop body, in the source's order:
  first the non-positive width or height, then (only when the first did not fire)
  \<open>np.max(boxes) < 1 and np.sqrt(...) < 8\<close>. The result is \<open>True\<close> when the box is
  skipped.
\<close>

fun skip_box :: "box list \<Rightarrow> nat \<Rightarrow> nat \<Rightarrow> box \<Rightarrow> error + bool" where
  "skip_box boxes h w (x1, y1, x2, y2) =
     (if min (x2 - x1) (y2 - y1) \<le> 0 then Inr True
      else case np_max boxes of
             Inl e \<Rightarrow> Inl e
           | Inr m \<Rightarrow> Inr (m < 1 \<and> sqrt ((x2 - x1) * real w * (y2 - y1) * real h) < 8))"

text \<open>
  Lines 179-188: the loop over \<open>zip(boxes, labels)\<close>, appending the kept boxes and labels
  to \<open>boxes_\<close> and \<open>labels_\<close> (here \<open>kept_boxes\<close>, \<open>kept_labels\<close>).
\<close>

fun filter_loop ::
  "box list \<Rightarrow> nat \<Rightarrow> nat \<Rightarrow> (box \<times> 'l) list \<Rightarrow> box list \<Rightarrow> 'l list \<Rightarrow> error + box list \<times> 'l list"
where
  "filter_loop boxes h w [] kept_boxes kept_labels = Inr (kept_boxes, kept_labels)"
| "filter_loop boxes h w ((box, label) # rest) kept_boxes kept_labels =
     (case skip_box boxes h w box of
        Inl e \<Rightarrow> Inl e
      | Inr True \<Rightarrow> filter_loop boxes h w rest kept_boxes kept_labels
      | Inr False \<Rightarrow> filter_loop boxes h w rest (kept_boxes @ [box]) (kept_labels @ [label]))"

text \<open>\<open>VOCDataset.filter(img, boxes, labels)\<close>; of \<open>img\<close> only the shape is read.\<close>

definition VOCDataset_filter ::
  "nat list \<Rightarrow> box list \<Rightarrow> 'l list \<Rightarrow> error + box list \<times> 'l list"
where
  "VOCDataset_filter shape boxes labels =
     (case img_hw shape of
        Inl e \<Rightarrow> Inl e
      | Inr (h, w) \<Rightarrow> filter_loop boxes h w (zip boxes labels) [] [])"

text \<open>The notions the statements about the filter use.\<close>

fun width :: "box \<Rightarrow> real" where
  "width (x1, y1, x2, y2) = x2 - x1"

fun height :: "box \<Rightarrow> real" where
  "height (x1, y1, x2, y2) = y2 - y1"

definition all_coords :: "box list \<Rightarrow> real set" where
  "all_coords boxes = (\<Union>b \<in> set boxes. set (coords b))"

definition geo_mean :: "nat \<Rightarrow> nat \<Rightarrow> box \<Rightarrow> real" where
  "geo_mean h w b = sqrt (width b * real w * height b * real h)"

definition positive_size :: "box \<Rightarrow> bool" where
  "positive_size b \<longleftrightarrow> 0 < width b \<and> 0 < height b"

definition small_box_test :: "box list \<Rightarrow> nat \<Rightarrow> nat \<Rightarrow> box \<Rightarrow> bool" where
  "small_box_test boxes h w b \<longleftrightarrow>
     list_all (\<lambda>c. c < 1) (concat (map coords boxes)) \<and> geo_mean h w b < 8"

definition kept :: "box list \<Rightarrow> nat \<Rightarrow> nat \<Rightarrow> (box \<times> 'l) list \<Rightarrow> (box \<times> 'l) list" where
  "kept boxes h w zs =
     filter (\<lambda>(b, l). positive_size b \<and> \<not> small_box_test boxes h w b) zs"


section \<open>\<open>utils/loss.py\<close>: \<open>MultiBoxLoss\<close>\<close>

text \<open>
  Tensors are nested lists: a \<open>[B, A]\<close> tensor is a list of \<open>B\<close> samples, each a list of
  \<open>A\<close> anchors. Floating-point numbers are modelled as real numbers (rounding, overflow
  and NaN are outside the model), integer tensors as \<open>int\<close>, \<open>bool\<close> masks as \<open>bool\<close>.
  A loss value is either the 0-dimensional tensor that \<open>CrossEntropyLoss\<close> returns under
  its default reduction, or a \<open>[B, A]\<close> tensor; multiplying a loss by a \<open>[B, A]\<close>
  tensor broadcasts the scalar.
\<close>

datatype tensor = Scalar real | Matrix "real list list"

fun mul :: "tensor \<Rightarrow> real list list \<Rightarrow> real list list" where
  "mul (Scalar c) m = map (map (\<lambda>x. c * x)) m"
| "mul (Matrix l) m = map2 (map2 (*)) l m"

text \<open>
  \<open>x.sort(dim=1)[1]\<close> on one row: the indices that sort the row in ascending order.
  PyTorch leaves the order of entries that compare equal open; here they keep their
  index order. The statements about counts below use only that the ranks are a
  permutation of the anchor indices, which holds for every order of equal entries.
\<close>

definition argsort :: "'a::linorder list \<Rightarrow> nat list" where
  "argsort xs = map snd (sort_key fst (zip xs [0..<length xs]))"

text \<open>Lines 18-20: \<open>pos = label > 0\<close>, \<open>neg = label == 0\<close>, \<open>label.clamp(min=0)\<close>.\<close>

definition pos_mask :: "int list list \<Rightarrow> bool list list" where
  "pos_mask label = map (map (\<lambda>l. l > 0)) label"

definition neg_mask :: "int list list \<Rightarrow> bool list list" where
  "neg_mask label = map (map (\<lambda>l. l = 0)) label"

definition clamp_min0 :: "int list list \<Rightarrow> int list list" where
  "clamp_min0 label = map (map (\<lambda>l. max l 0)) label"

text \<open>
  Lines 11-15, \<open>_hard_negative_mining(loss, pos, neg, k)\<close>:
  \<open>rank = (loss * (-1 * neg.float())).sort(dim=1)[1].sort(dim=1)[1]\<close> and
  \<open>hard_neg = rank < (pos.long().sum(dim=1, keepdim=True) * k)\<close>.
\<close>

definition hard_negative_mining ::
  "tensor \<Rightarrow> bool list list \<Rightarrow> bool list list \<Rightarrow> int \<Rightarrow> bool list list"
where
  "hard_negative_mining loss pos neg k =
     (let rank = map (\<lambda>row. argsort (argsort row))
                   (mul loss (map (map (\<lambda>n. -1 * of_bool n)) neg));
          num_pos = map (\<lambda>row. (\<Sum>p\<leftarrow>row. of_bool p)) pos
      in map2 (\<lambda>rank_b num_pos_b. map (\<lambda>r. int r < num_pos_b * k) rank_b) rank num_pos)"

text \<open>
  Line 9 and line 27: \<open>torch.nn.CrossEntropyLoss(ignore_index=-1)\<close> keeps the default
  reduction, the mean over all targets different from \<open>ignore_index\<close>. The per-anchor
  value is \<open>-log_softmax(z)[t]\<close> for the anchor's class logits \<open>z\<close> (the source
  transposes \<open>xconf\<close> only because the class dimension has to come second). A target
  outside \<open>0 .. C-1\<close> raises. The mean over no target at all is NaN in PyTorch and
  \<open>0 / 0 = 0\<close> here; it arises only for a batch without anchors, where
  the value is multiplied into tensors without entries and never reaches a result.
\<close>

definition nll :: "real list \<Rightarrow> nat \<Rightarrow> real" where
  "nll z t = ln (\<Sum>x\<leftarrow>z. exp x) - z ! t"

definition CrossEntropyLoss ::
  "int \<Rightarrow> real list list list \<Rightarrow> int list list \<Rightarrow> error + real"
where
  "CrossEntropyLoss ignore_index input target =
     (let items = filter (\<lambda>(z, t). t \<noteq> ignore_index) (concat (map2 zip input target))
      in if list_ex (\<lambda>(z, t). t < 0 \<or> int (length z) \<le> t) items then Inl IndexError
         else Inr ((\<Sum>(z, t)\<leftarrow>items. nll z (nat t)) / real (length items)))"

text \<open>
  Lines 22-24: \<open>xloc[pos_idx]\<close> keeps the four entries of every anchor whose mask bit is
  set, in order; \<open>F.smooth_l1_loss(..., size_average=False)\<close> sums the element-wise
  smooth-L1 values (threshold 1).
\<close>

definition masked_select :: "bool list list \<Rightarrow> vec4 list list \<Rightarrow> real list" where
  "masked_select idx x =
     concat (map2 (\<lambda>idx_b x_b. concat (map2 (\<lambda>i v. if i then coords v else []) idx_b x_b)) idx x)"

definition smooth_l1 :: "real \<Rightarrow> real \<Rightarrow> real" where
  "smooth_l1 x y = (let d = \<bar>x - y\<bar> in if d < 1 then 0.5 * d ^ 2 else d - 0.5)"

definition smooth_l1_loss :: "real list \<Rightarrow> real list \<Rightarrow> real" where
  "smooth_l1_loss xs ys = (\<Sum>(x, y)\<leftarrow>zip xs ys. smooth_l1 x y)"

definition tensor_sum :: "real list list \<Rightarrow> real" where
  "tensor_sum m = sum_list (map sum_list m)"

text \<open>Lines 28-29: the masked loss tensor \<open>conf_loss * (pos + hard_neg).gt(0).float()\<close>.\<close>

definition masked_conf_loss :: "tensor \<Rightarrow> int list list \<Rightarrow> int \<Rightarrow> real list list" where
  "masked_conf_loss conf_loss label k =
     (let pos = pos_mask label;
          neg = neg_mask label;
          hard_neg = hard_negative_mining conf_loss pos neg k
      in mul conf_loss
           (map2 (map2 (\<lambda>p h. of_bool ((of_bool p + of_bool h :: nat) > 0))) pos hard_neg))"

text \<open>Line 32: \<open>N = pos.data.float().sum() + 1e-3\<close>.\<close>

definition normalizer :: "int list list \<Rightarrow> real" where
  "normalizer label = tensor_sum (map (map of_bool) (pos_mask label)) + 1 / 1000"

text \<open>Lines 17-33, \<open>forward(xloc, xconf, loc, label, k)\<close>.\<close>

definition forward ::
  "vec4 list list \<Rightarrow> real list list list \<Rightarrow> vec4 list list \<Rightarrow> int list list \<Rightarrow> int
     \<Rightarrow> error + real \<times> real"
where
  "forward xloc xconf loc label k =
     (let pos = pos_mask label;
          loc_loss = smooth_l1_loss (masked_select pos xloc) (masked_select pos loc)
      in case CrossEntropyLoss (-1) xconf (clamp_min0 label) of
           Inl e \<Rightarrow> Inl e
         | Inr conf_loss \<Rightarrow>
             (let conf_loss = tensor_sum (masked_conf_loss (Scalar conf_loss) label k);
                  N = normalizer label
              in Inr (loc_loss / N, conf_loss / N)))"

text \<open>
  The shapes \<open>forward\<close> is called with: \<open>xloc\<close> and \<open>loc\<close> are \<open>[B, A, 4]\<close>, \<open>xconf\<close> is
  \<open>[B, A, C]\<close> with \<open>C > 0\<close> classes and \<open>label\<close> is \<open>[B, A]\<close>; every label is below \<open>C\<close>.
\<close>

definition has_shape :: "nat \<Rightarrow> nat \<Rightarrow> 'a list list \<Rightarrow> bool" where
  "has_shape B A x \<longleftrightarrow> length x = B \<and> list_all (\<lambda>row. length row = A) x"

definition batch_ok ::
  "nat \<Rightarrow> nat \<Rightarrow> nat \<Rightarrow> vec4 list list \<Rightarrow> real list list list \<Rightarrow> vec4 list list \<Rightarrow> int list list \<Rightarrow> bool"
where
  "batch_ok B A C xloc xconf loc label \<longleftrightarrow>
     has_shape B A xloc \<and> has_shape B A xconf \<and> has_shape B A loc \<and> has_shape B A label \<and>
     0 < C \<and> list_all (list_all (\<lambda>z. length z = C)) xconf \<and>
     list_all (list_all (\<lambda>l. l < int C)) label"

fun loss_shape :: "nat \<Rightarrow> nat \<Rightarrow> tensor \<Rightarrow> bool" where
  "loss_shape B A (Scalar c) = True"
| "loss_shape B A (Matrix l) = has_shape B A l"

text \<open>Per-sample counts of positive and of negative anchors.\<close>

definition num_pos :: "int list \<Rightarrow> nat" where
  "num_pos row = length (filter (\<lambda>l. l > 0) row)"

definition num_neg :: "int list \<Rightarrow> nat" where
  "num_neg row = length (filter (\<lambda>l. l = 0) row)"

text \<open>The smooth-L1 distance of one anchor, over its four coordinates.\<close>

definition anchor_l1 :: "vec4 \<Rightarrow> vec4 \<Rightarrow> real" where
  "anchor_l1 v u = (\<Sum>(x, y)\<leftarrow>zip (coords v) (coords u). smooth_l1 x y)"

text \<open>One sample of \<open>masked_select\<close>.\<close>

definition row_select :: "bool list \<Rightarrow> vec4 list \<Rightarrow> real list" where
  "row_select idx_b x_b = concat (map2 (\<lambda>i v. if i then coords v else []) idx_b x_b)"

text \<open>
  The classification loss in the words of the specification, for comparison with
  \<open>forward\<close>: the sum, over the positive anchors and the negative anchors selected by
  \<open>hard_neg\<close>, of each anchor's own cross-entropy over its class logits, divided by
  \<open>N\<close>.
\<close>

definition per_anchor_conf_loss ::
  "real list list list \<Rightarrow> int list list \<Rightarrow> bool list list \<Rightarrow> real"
where
  "per_anchor_conf_loss xconf label hard_neg =
     tensor_sum
       (map2 (\<lambda>(z_b, l_b) h_b.
           map2 (\<lambda>(z, l) h. if 0 < l \<or> (l = 0 \<and> h) then nll z (nat l) else 0) (zip z_b l_b) h_b)
         (zip xconf label) hard_neg)
     / normalizer label"

text \<open>The sort keys of line 13, \<open>loss * (-1 * neg.float())\<close>.\<close>

definition keys :: "tensor \<Rightarrow> int list list \<Rightarrow> real list list" where
  "keys loss label = mul loss (map (map (\<lambda>n. -1 * of_bool n)) (neg_mask label))"

section \<open>Properties of \<open>VOCDataset.filter\<close>\<close>

lemma all_coords_set: "all_coords boxes = set (concat (map coords boxes))"
  by (auto simp: all_coords_def)

lemma np_max_less:
  assumes "boxes \<noteq> []"
  shows "\<exists>m. np_max boxes = Inr m \<and> (m < 1 \<longleftrightarrow> list_all (\<lambda>c. c < 1) (concat (map coords boxes)))"
proof -
  from assms obtain b bs where bb: "boxes = b # bs" by (cases boxes) auto
  obtain x1 y1 x2 y2 where b: "b = (x1, y1, x2, y2)" by (cases b) auto
  define cs where "cs = [y1, x2, y2] @ concat (map coords bs)"
  have c: "concat (map coords boxes) = x1 # cs"
    by (simp add: bb b cs_def)
  have "fold max cs x1 = Max (set (x1 # cs))"
    by (simp only: Max.set_eq_fold)
  moreover have "Max (set (x1 # cs)) < 1 \<longleftrightarrow> (\<forall>c \<in> set (x1 # cs). c < 1)"
    by (rule Max_less_iff) simp_all
  ultimately show ?thesis
    unfolding np_max_def c by (simp add: list_all_iff)
qed

lemma skip_box_kept:
  assumes "boxes \<noteq> []"
  shows "skip_box boxes h w b = Inr (\<not> (positive_size b \<and> \<not> small_box_test boxes h w b))"
proof -
  obtain m where m: "np_max boxes = Inr m"
    "m < 1 \<longleftrightarrow> list_all (\<lambda>c. c < 1) (concat (map coords boxes))"
    using np_max_less[OF assms] by blast
  obtain x1 y1 x2 y2 where b: "b = (x1, y1, x2, y2)" by (cases b) auto
  show ?thesis
    using m(2) by (auto simp: b m(1) positive_size_def small_box_test_def geo_mean_def)
qed

lemma filter_loop_eq:
  "zs = [] \<or> boxes \<noteq> [] \<Longrightarrow>
   filter_loop boxes h w zs bs ls =
     Inr (bs @ map fst (kept boxes h w zs), ls @ map snd (kept boxes h w zs))"
proof (induction zs arbitrary: bs ls)
  case Nil
  then show ?case by (simp add: kept_def)
next
  case (Cons z zs)
  obtain b l where z: "z = (b, l)" by (cases z) auto
  from Cons.prems have ne: "boxes \<noteq> []" by simp
  show ?case
    using Cons.IH[of "bs @ [b]" "ls @ [l]"] Cons.IH[of bs ls] ne
    by (simp add: z skip_box_kept kept_def)
qed

lemma VOCDataset_filter_eq:
  assumes "img_hw shape = Inr (h, w)"
  shows "VOCDataset_filter shape boxes labels =
     Inr (map fst (kept boxes h w (zip boxes labels)), map snd (kept boxes h w (zip boxes labels)))"
proof -
  have "zip boxes labels = [] \<or> boxes \<noteq> []" by (cases boxes) auto
  from filter_loop_eq[OF this, of h w "[]" "[]"] assms show ?thesis
    by (simp add: VOCDataset_filter_def)
qed

lemma img_hw_total:
  assumes "length shape = 2 \<or> length shape = 3"
  shows "\<exists>h w. img_hw shape = Inr (h, w)"
  using assms by (auto simp: img_hw_def)

lemma sqrt_less_8: "sqrt x < 8 \<longleftrightarrow> x < 64"
proof -
  have "sqrt x < sqrt 64 \<longleftrightarrow> x < 64" by (rule real_sqrt_less_iff)
  moreover have "sqrt 64 = 8" using real_sqrt_abs[of 8] by simp
  ultimately show ?thesis by simp
qed

text \<open>
  C6: for an image of two or three dimensions and any list of boxes and labels, the
  filter returns without an error; no returned box has a non-positive width or height,
  every box with a non-positive width or height is gone, the returned boxes are boxes of
  the input with one label each, and an empty box list gives empty outputs.
\<close>

theorem filter_drops_degenerate_boxes:
  assumes "length shape = 2 \<or> length shape = 3"
  shows "\<exists>bs ls. VOCDataset_filter shape boxes labels = Inr (bs, ls)
           \<and> (\<forall>b \<in> set bs. 0 < width b \<and> 0 < height b)
           \<and> (\<forall>b \<in> set boxes. width b \<le> 0 \<or> height b \<le> 0 \<longrightarrow> b \<notin> set bs)
           \<and> set bs \<subseteq> set boxes \<and> length ls = length bs
           \<and> VOCDataset_filter shape [] labels = Inr ([], [])"
proof -
  obtain h w where hw: "img_hw shape = Inr (h, w)"
    using img_hw_total[OF assms] by blast
  let ?zs = "kept boxes h w (zip boxes labels)"
  have sub: "set ?zs \<subseteq> set (zip boxes labels)" by (auto simp: kept_def)
  have pos: "\<forall>b \<in> set (map fst ?zs). 0 < width b \<and> 0 < height b"
    by (auto simp: kept_def positive_size_def)
  have "set (map fst ?zs) \<subseteq> set boxes"
    using sub by (auto dest: set_zip_leftD)
  moreover have "VOCDataset_filter shape [] labels = Inr ([], [])"
    by (simp add: VOCDataset_filter_eq[OF hw] kept_def)
  moreover from pos have "\<forall>b \<in> set boxes. width b \<le> 0 \<or> height b \<le> 0 \<longrightarrow> b \<notin> set (map fst ?zs)"
    by (metis not_less)
  ultimately show ?thesis
    using pos by (simp add: VOCDataset_filter_eq[OF hw])
qed

theorem filter_drops_degenerate_boxes_witness:
  "(length [300, 300, 3::nat] = 2 \<or> length [300, 300, 3::nat] = 3) \<and>
   (\<exists>bs ls. VOCDataset_filter [300, 300, 3] [(1, 1, 1, 5), (10, 10, 50, 60)] [3, 7 :: int] = Inr (bs, ls)
           \<and> (\<forall>b \<in> set bs. 0 < width b \<and> 0 < height b)
           \<and> (\<forall>b \<in> set [(1, 1, 1, 5), (10, 10, 50, 60)]. width b \<le> 0 \<or> height b \<le> 0 \<longrightarrow> b \<notin> set bs)
           \<and> set bs \<subseteq> set [(1, 1, 1, 5), (10, 10, 50, 60)] \<and> length ls = length bs
           \<and> VOCDataset_filter [300, 300, 3] [] [3, 7 :: int] = Inr ([], []))"
  using filter_drops_degenerate_boxes[of "[300, 300, 3]" "[(1, 1, 1, 5), (10, 10, 50, 60)]" "[3, 7 :: int]"]
  by simp

text \<open>
  C7: beyond the boxes of non-positive width or height, the filter drops exactly the boxes
  whose geometric mean of pixel dimensions,
  \<open>sqrt ((x2 - x1) * image_width * (y2 - y1) * image_height)\<close>, is below 8, and it applies
  this test only when the box coordinates are below 1, that is in normalized units.
\<close>

theorem filter_small_box_threshold:
  assumes "img_hw shape = Inr (h, w)"
  shows "VOCDataset_filter shape boxes labels =
     Inr (map fst (filter (\<lambda>(b, l). 0 < width b \<and> 0 < height b \<and>
                \<not> (list_all (\<lambda>c. c < 1) (concat (map coords boxes)) \<and>
                   sqrt (width b * real w * height b * real h) < 8)) (zip boxes labels)),
          map snd (filter (\<lambda>(b, l). 0 < width b \<and> 0 < height b \<and>
                \<not> (list_all (\<lambda>c. c < 1) (concat (map coords boxes)) \<and>
                   sqrt (width b * real w * height b * real h) < 8)) (zip boxes labels)))"
  using VOCDataset_filter_eq[OF assms, of boxes labels]
  by (simp add: kept_def positive_size_def small_box_test_def geo_mean_def)

theorem filter_small_box_threshold_witness:
  "img_hw [300, 300, 3] = Inr (300, 300) \<and>
   VOCDataset_filter [300, 300, 3]
       [(1/10, 1/10, 1/2, 1/2), (1/10, 1/10, 11/100, 11/100), (1/5, 1/5, 1/5, 3/5)] [1, 2, 3 :: int]
     = Inr ([(1/10, 1/10, 1/2, 1/2)], [1])"
proof -
  have hw: "img_hw [300, 300, 3] = Inr (300, 300)" by (simp add: img_hw_def)
  show ?thesis
    using hw filter_small_box_threshold[OF hw,
       of "[(1/10, 1/10, 1/2, 1/2), (1/10, 1/10, 11/100, 11/100), (1/5, 1/5, 1/5, 3/5)]" "[1, 2, 3 :: int]"]
    by (simp add: sqrt_less_8)
qed

text \<open>
  C10: the condition of the size test reads the whole box array. When some coordinate of
  some box of the image is at least 1, only the boxes of non-positive width or height are
  dropped; when every coordinate of every box is below 1, the size test is applied to
  every box.
\<close>

theorem filter_size_test_is_per_image:
  assumes "img_hw shape = Inr (h, w)"
  shows "((\<exists>c \<in> all_coords boxes. 1 \<le> c) \<longrightarrow>
            VOCDataset_filter shape boxes labels =
              Inr (map fst (filter (\<lambda>(b, l). 0 < width b \<and> 0 < height b) (zip boxes labels)),
                   map snd (filter (\<lambda>(b, l). 0 < width b \<and> 0 < height b) (zip boxes labels))))
       \<and> ((\<forall>c \<in> all_coords boxes. c < 1) \<longrightarrow>
            VOCDataset_filter shape boxes labels =
              Inr (map fst (filter (\<lambda>(b, l). 0 < width b \<and> 0 < height b \<and> 8 \<le> geo_mean h w b) (zip boxes labels)),
                   map snd (filter (\<lambda>(b, l). 0 < width b \<and> 0 < height b \<and> 8 \<le> geo_mean h w b) (zip boxes labels))))"
proof -
  have a: "list_all (\<lambda>c. c < 1) (concat (map coords boxes)) \<longleftrightarrow> (\<forall>c \<in> all_coords boxes. c < 1)"
    by (simp add: all_coords_set list_all_iff del: set_concat)
  have "\<not> list_all (\<lambda>c. c < 1) (concat (map coords boxes))" if "\<exists>c \<in> all_coords boxes. 1 \<le> c"
    using that unfolding a by (auto simp: not_less)
  then show ?thesis
    using a by (auto simp: VOCDataset_filter_eq[OF assms] kept_def positive_size_def
        small_box_test_def not_less intro!: filter_cong)
qed

theorem filter_size_test_is_per_image_witness:
  "img_hw [300, 300, 3] = Inr (300, 300) \<and>
   (\<exists>c \<in> all_coords [(1/10, 1/10, 11/100, 11/100), (1/5, 1/5, 3/2, 9/10)]. 1 \<le> c) \<and>
   VOCDataset_filter [300, 300, 3]
       [(1/10, 1/10, 11/100, 11/100), (1/5, 1/5, 3/2, 9/10)] [1, 2 :: int]
     = Inr ([(1/10, 1/10, 11/100, 11/100), (1/5, 1/5, 3/2, 9/10)], [1, 2]) \<and>
   \<not> (\<exists>c \<in> all_coords [(1/10, 1/10, 11/100, 11/100), (1/5, 1/5, 1/2, 9/10)]. 1 \<le> c) \<and>
   VOCDataset_filter [300, 300, 3]
       [(1/10, 1/10, 11/100, 11/100), (1/5, 1/5, 1/2, 9/10)] [1, 2 :: int]
     = Inr ([(1/5, 1/5, 1/2, 9/10)], [2])"
proof -
  have hw: "img_hw [300, 300, 3] = Inr (300, 300)" by (simp add: img_hw_def)
  have le: "8 \<le> sqrt x \<longleftrightarrow> 64 \<le> x" for x
    using sqrt_less_8[of x] by (simp add: not_less[symmetric])
  show ?thesis
    using hw
      filter_size_test_is_per_image[OF hw,
        of "[(1/10, 1/10, 11/100, 11/100), (1/5, 1/5, 3/2, 9/10)]" "[1, 2 :: int]"]
      filter_size_test_is_per_image[OF hw,
        of "[(1/10, 1/10, 11/100, 11/100), (1/5, 1/5, 1/2, 9/10)]" "[1, 2 :: int]"]
    by (simp add: all_coords_def geo_mean_def le)
qed

section \<open>Properties of \<open>MultiBoxLoss\<close>\<close>

subsection \<open>Ranks are a permutation of the anchor indices\<close>

lemma length_argsort: "length (argsort xs) = length xs"
  by (simp add: argsort_def)

lemma mset_argsort: "mset (argsort xs) = mset [0..<length xs]"
proof -
  let ?zs = "zip xs [0..<length xs]"
  have "mset (argsort xs) = image_mset snd (mset (sort_key fst ?zs))"
    unfolding argsort_def by (simp only: mset_map)
  also have "\<dots> = image_mset snd (mset ?zs)"
    by (simp only: mset_sort)
  also have "\<dots> = mset (map snd ?zs)"
    by (simp only: mset_map)
  also have "map snd ?zs = [0..<length xs]"
    by (rule map_snd_zip) simp
  finally show ?thesis .
qed

lemma mset_rank: "mset (argsort (argsort xs)) = mset [0..<length xs]"
  using mset_argsort[of "argsort xs"] by (simp add: length_argsort)

lemma filter_less_upt: "length (filter (\<lambda>i. int i < m) [0..<n]) = min (nat m) n"
  by (induction n) auto

lemma count_rank_below:
  "length (filter (\<lambda>r. int r < m) (argsort (argsort xs))) = min (nat m) (length xs)"
proof -
  have "length (filter (\<lambda>r. int r < m) (argsort (argsort xs)))
        = size (filter_mset (\<lambda>r. int r < m) (mset (argsort (argsort xs))))"
    by (simp flip: mset_filter)
  also have "\<dots> = length (filter (\<lambda>r. int r < m) [0..<length xs])"
    by (simp only: mset_rank mset_filter[symmetric] size_mset)
  finally show ?thesis by (simp add: filter_less_upt)
qed

subsection \<open>Shapes and rows\<close>

lemma has_shape_nth:
  "has_shape B A x \<longleftrightarrow> length x = B \<and> (\<forall>b<B. length (x ! b) = A)"
  by (auto simp: has_shape_def list_all_length)

lemma has_shape_map [simp]: "has_shape B A (map (map f) x) = has_shape B A x"
  by (simp add: has_shape_def list_all_iff)

lemma has_shape_pos [simp]: "has_shape B A (pos_mask label) = has_shape B A label"
  by (simp add: pos_mask_def)

lemma has_shape_neg [simp]: "has_shape B A (neg_mask label) = has_shape B A label"
  by (simp add: neg_mask_def)

lemma mul_shape:
  assumes "loss_shape B A loss" "has_shape B A m"
  shows "has_shape B A (mul loss m)"
  using assms by (cases loss) (auto simp: has_shape_nth)

lemma mul_nth:
  assumes "loss_shape B A loss" "has_shape B A m" "b < B" "a < A"
  shows "mul loss m ! b ! a = (case loss of Scalar c \<Rightarrow> c | Matrix l \<Rightarrow> l ! b ! a) * m ! b ! a"
  using assms by (cases loss) (auto simp: has_shape_nth)

lemma sum_of_bool: "(\<Sum>x\<leftarrow>row. of_bool (P x)) = of_nat (length (filter P row))"
  by (induction row) auto

lemma length_pos_mask [simp]: "length (pos_mask label) = length label"
  by (simp add: pos_mask_def)

lemma length_neg_mask [simp]: "length (neg_mask label) = length label"
  by (simp add: neg_mask_def)

lemma num_pos_mask: "b < length label \<Longrightarrow>
  (\<Sum>p\<leftarrow>pos_mask label ! b. of_bool p) = int (num_pos (label ! b))"
  by (simp add: sum_of_bool pos_mask_def num_pos_def comp_def)

lemma keys_shape:
  assumes "loss_shape B A loss" "has_shape B A label"
  shows "has_shape B A (keys loss label)"
  unfolding keys_def using assms by (intro mul_shape) simp_all

lemma hnm_row:
  assumes "loss_shape B A loss" "has_shape B A label" "b < B"
  shows "hard_negative_mining loss (pos_mask label) (neg_mask label) k ! b
       = map (\<lambda>r. int r < int (num_pos (label ! b)) * k) (argsort (argsort (keys loss label ! b)))"
proof -
  have lb: "length label = B" using assms by (simp add: has_shape_nth)
  show ?thesis
    unfolding hard_negative_mining_def Let_def keys_def[symmetric]
    using keys_shape[OF assms(1,2)] assms(3) lb
    by (simp add: has_shape_nth num_pos_mask)
qed

lemma hnm_shape:
  assumes "loss_shape B A loss" "has_shape B A label"
  shows "has_shape B A (hard_negative_mining loss (pos_mask label) (neg_mask label) k)"
proof -
  have len: "length (hard_negative_mining loss (pos_mask label) (neg_mask label) k) = B"
    unfolding hard_negative_mining_def Let_def keys_def[symmetric]
    using keys_shape[OF assms] assms
    by (simp add: has_shape_nth)
  moreover have "length (hard_negative_mining loss (pos_mask label) (neg_mask label) k ! b) = A"
    if "b < B" for b
    using keys_shape[OF assms] that
    by (simp add: hnm_row[OF assms that] length_argsort has_shape_nth)
  ultimately show ?thesis by (simp add: has_shape_nth)
qed

lemma hnm_count:
  assumes "loss_shape B A loss" "has_shape B A label" "b < B"
  shows "length (filter id (hard_negative_mining loss (pos_mask label) (neg_mask label) k ! b))
         = min (nat (int (num_pos (label ! b)) * k)) A"
proof -
  have "length (keys loss label ! b) = A"
    using keys_shape[OF assms(1,2)] assms(3) by (simp add: has_shape_nth)
  then show ?thesis
    using count_rank_below[of "int (num_pos (label ! b)) * k" "keys loss label ! b"]
    by (simp add: hnm_row[OF assms] filter_map comp_def)
qed

subsection \<open>The hard-negative mask\<close>

lemma num_pos_neg_le: "num_pos row + num_neg row \<le> length row"
  unfolding num_pos_def num_neg_def by (induction row) auto

lemma count_filter_id: "length (filter id bs) = card {a. a < length bs \<and> bs ! a}"
  by (simp add: length_filter_conv_card)

lemma num_neg_card: "num_neg row = card {a. a < length row \<and> row ! a = 0}"
  by (simp add: num_neg_def length_filter_conv_card)

lemma hnm_row_length:
  assumes "loss_shape B A loss" "has_shape B A label" "b < B"
  shows "length (hard_negative_mining loss (pos_mask label) (neg_mask label) k ! b) = A"
  using hnm_shape[OF assms(1,2), of k] assms(3) by (simp add: has_shape_nth)

lemma hnm_count_int:
  assumes "loss_shape B A loss" "has_shape B A label" "b < B" "0 \<le> k"
  shows "int (length (filter id (hard_negative_mining loss (pos_mask label) (neg_mask label) k ! b)))
         = min (k * int (num_pos (label ! b))) (int A)"
proof -
  have "0 \<le> int (num_pos (label ! b)) * k" using assms(4) by simp
  then show ?thesis
    unfolding hnm_count[OF assms(1-3)] by (auto simp: min_def mult.commute)
qed

text \<open>
  C9: for every sample, the mask returned by \<open>_hard_negative_mining\<close> marks exactly
  \<open>min (k * positives of the sample) (number of anchors)\<close> anchors, whatever the loss and
  however many negatives the sample has; when the sample has fewer negatives than
  \<open>k * positives\<close>, some marked anchor is not a negative.
\<close>

theorem hard_negative_mask_size:
  assumes "has_shape B A label" "loss_shape B A loss" "0 \<le> k" "b < B"
  shows "int (length (filter id (hard_negative_mining loss (pos_mask label) (neg_mask label) k ! b)))
           = min (k * int (num_pos (label ! b))) (int A)
       \<and> (int (num_neg (label ! b)) < k * int (num_pos (label ! b)) \<longrightarrow>
            (\<exists>a<A. hard_negative_mining loss (pos_mask label) (neg_mask label) k ! b ! a
                    \<and> label ! b ! a \<noteq> 0))"
proof (intro conjI impI)
  let ?hn = "hard_negative_mining loss (pos_mask label) (neg_mask label) k ! b"
  let ?row = "label ! b"
  show cnt: "int (length (filter id ?hn)) = min (k * int (num_pos ?row)) (int A)"
    by (rule hnm_count_int[OF assms(2,1,4,3)])
  have lh: "length ?hn = A" by (rule hnm_row_length[OF assms(2,1,4)])
  have lr: "length ?row = A" using assms(1,4) by (simp add: has_shape_nth)
  assume few: "int (num_neg ?row) < k * int (num_pos ?row)"
  show "\<exists>a<A. ?hn ! a \<and> ?row ! a \<noteq> 0"
  proof (rule ccontr)
    assume "\<not> (\<exists>a<A. ?hn ! a \<and> ?row ! a \<noteq> 0)"
    then have "{a. a < length ?hn \<and> ?hn ! a} \<subseteq> {a. a < length ?row \<and> ?row ! a = 0}"
      using lh lr by auto
    then have "card {a. a < length ?hn \<and> ?hn ! a} \<le> card {a. a < length ?row \<and> ?row ! a = 0}"
      by (intro card_mono) simp_all
    then have le: "length (filter id ?hn) \<le> num_neg ?row"
      by (simp only: count_filter_id num_neg_card)
    have "num_pos ?row \<noteq> 0"
    proof
      assume "num_pos ?row = 0"
      with few show False by simp
    qed
    with num_pos_neg_le[of ?row] lr have "num_neg ?row < A" by simp
    with few have "int (num_neg ?row) < min (k * int (num_pos ?row)) (int A)" by simp
    with cnt le show False by simp
  qed
qed

theorem hard_negative_mask_size_witness:
  "has_shape 1 3 [[1, -1, 0 :: int]] \<and> loss_shape 1 3 (Scalar 1) \<and> (0::int) \<le> 3 \<and> (0::nat) < 1 \<and>
   int (length (filter id (hard_negative_mining (Scalar 1) (pos_mask [[1, -1, 0]]) (neg_mask [[1, -1, 0]]) 3 ! 0))) = 3 \<and>
   int (num_neg ([[1, -1, 0]] ! 0)) < 3 * int (num_pos ([[1, -1, 0]] ! 0)) \<and>
   (\<exists>a<3. hard_negative_mining (Scalar 1) (pos_mask [[1, -1, 0]]) (neg_mask [[1, -1, 0]]) 3 ! 0 ! a
           \<and> [[1, -1, 0 :: int]] ! 0 ! a \<noteq> 0)"
  using hard_negative_mask_size[of 1 3 "[[1, -1, 0]]" "Scalar 1" 3 0]
  by (simp add: has_shape_def num_pos_def num_neg_def)

lemma mask_row:
  assumes "has_shape B A p" "has_shape B A h" "b < B" "a < A"
  shows "map2 (map2 f) p h ! b ! a = f (p ! b ! a) (h ! b ! a)"
  using assms by (simp add: has_shape_nth)

lemma mask_shape:
  assumes "has_shape B A p" "has_shape B A h"
  shows "has_shape B A (map2 (map2 f) p h)"
  using assms by (simp add: has_shape_nth)

lemma masked_conf_loss_nth:
  assumes "loss_shape B A loss" "has_shape B A label" "b < B" "a < A"
  shows "masked_conf_loss loss label k ! b ! a =
           (case loss of Scalar c \<Rightarrow> c | Matrix l \<Rightarrow> l ! b ! a) *
           of_bool (0 < label ! b ! a \<or> hard_negative_mining loss (pos_mask label) (neg_mask label) k ! b ! a)"
proof -
  let ?hn = "hard_negative_mining loss (pos_mask label) (neg_mask label) k"
  let ?f = "\<lambda>p h. of_bool ((of_bool p + of_bool h :: nat) > 0) :: real"
  have hs: "has_shape B A ?hn" by (rule hnm_shape[OF assms(1,2)])
  have ps: "has_shape B A (pos_mask label)" using assms(2) by simp
  have "masked_conf_loss loss label k ! b ! a
      = (case loss of Scalar c \<Rightarrow> c | Matrix l \<Rightarrow> l ! b ! a) * map2 (map2 ?f) (pos_mask label) ?hn ! b ! a"
    unfolding masked_conf_loss_def Let_def
    by (rule mul_nth[OF assms(1) mask_shape[OF ps hs] assms(3,4)])
  also have "map2 (map2 ?f) (pos_mask label) ?hn ! b ! a = ?f (pos_mask label ! b ! a) (?hn ! b ! a)"
    by (rule mask_row[OF ps hs assms(3,4)])
  also have "pos_mask label ! b ! a = (0 < label ! b ! a)"
    using assms(2-4) by (simp add: pos_mask_def has_shape_nth)
  finally show ?thesis by (simp add: of_bool_def)
qed

text \<open>
  The entries of the masked loss tensor: in every sample, the negative anchors whose entry
  is not zero number at most \<open>k\<close> times the positive anchors of that sample. This bounds
  the positions that carry an entry, not the anchors whose cross-entropy enters the value
  of the entries.
\<close>

lemma nonzero_negative_entries_bound:
  assumes "has_shape B A label" "loss_shape B A loss" "0 \<le> k" "b < B"
  shows "int (card {a. a < A \<and> label ! b ! a = 0 \<and> masked_conf_loss loss label k ! b ! a \<noteq> 0})
           \<le> k * int (num_pos (label ! b))"
proof -
  let ?hn = "hard_negative_mining loss (pos_mask label) (neg_mask label) k ! b"
  have lh: "length ?hn = A" by (rule hnm_row_length[OF assms(2,1,4)])
  have "{a. a < A \<and> label ! b ! a = 0 \<and> masked_conf_loss loss label k ! b ! a \<noteq> 0}
          \<subseteq> {a. a < length ?hn \<and> ?hn ! a}"
    using lh by (auto simp: masked_conf_loss_nth[OF assms(2,1,4)])
  then have "card {a. a < A \<and> label ! b ! a = 0 \<and> masked_conf_loss loss label k ! b ! a \<noteq> 0}
          \<le> card {a. a < length ?hn \<and> ?hn ! a}"
    by (intro card_mono) simp_all
  then have "int (card {a. a < A \<and> label ! b ! a = 0 \<and> masked_conf_loss loss label k ! b ! a \<noteq> 0})
          \<le> int (length (filter id ?hn))"
    by (simp only: count_filter_id)
  also have "\<dots> = min (k * int (num_pos (label ! b))) (int A)"
    by (rule hnm_count_int[OF assms(2,1,4,3)])
  finally show ?thesis by simp
qed

text \<open>
  A batch without anchors: the masked loss tensor has no entry, so its sum is 0 whatever
  the value of the mean (NaN in PyTorch) is.
\<close>

lemma tensor_sum_no_entries:
  assumes "has_shape B 0 m"
  shows "tensor_sum m = 0"
proof -
  have "list_all (\<lambda>row. length row = 0) m"
    using assms by (simp add: has_shape_def)
  then have "sum_list (map sum_list m) = (0::real)"
    by (induction m) simp_all
  then show ?thesis
    by (simp add: tensor_sum_def)
qed

lemma masked_conf_loss_shape:
  assumes "loss_shape B A loss" "has_shape B A label"
  shows "has_shape B A (masked_conf_loss loss label k)"
  unfolding masked_conf_loss_def Let_def
  using assms by (intro mul_shape mask_shape hnm_shape) simp_all

lemma no_anchor_no_term:
  assumes "has_shape B 0 label"
  shows "tensor_sum (masked_conf_loss (Scalar L) label k) = 0"
  by (rule tensor_sum_no_entries[OF masked_conf_loss_shape[OF _ assms]]) simp

subsection \<open>Localization loss and normalization\<close>

lemma sum_zip_concat:
  "length xss = length yss \<Longrightarrow> (\<forall>i<length xss. length (xss ! i) = length (yss ! i)) \<Longrightarrow>
   (\<Sum>p\<leftarrow>zip (concat xss) (concat yss). g p) = (\<Sum>i<length xss. \<Sum>p\<leftarrow>zip (xss ! i) (yss ! i). g p)"
proof (induction xss yss rule: list_induct2)
  case Nil
  then show ?case by simp
next
  case (Cons xs xss ys yss)
  have l0: "length xs = length ys" using Cons.prems by auto
  have rest: "\<forall>i<length xss. length (xss ! i) = length (yss ! i)"
    using Cons.prems by auto
  show ?case
    using Cons.IH[OF rest] l0 by (simp add: sum.lessThan_Suc_shift del: sum.lessThan_Suc)
qed

lemma length_coords [simp]: "length (coords v) = 4"
  by (cases v) simp

lemma length_row_select:
  "length m = length x \<Longrightarrow> length x = length t \<Longrightarrow> length (row_select m x) = length (row_select m t)"
  unfolding row_select_def by (induction m x t rule: list_induct3) auto

lemma row_select_sum:
  assumes "length m = A" "length x = A" "length t = A"
  shows "(\<Sum>p\<leftarrow>zip (row_select m x) (row_select m t). case p of (x, y) \<Rightarrow> smooth_l1 x y)
       = (\<Sum>a<A. if m ! a then anchor_l1 (x ! a) (t ! a) else 0)"
proof -
  let ?X = "map2 (\<lambda>i v. if i then coords v else []) m x"
  let ?T = "map2 (\<lambda>i v. if i then coords v else []) m t"
  have "(\<Sum>p\<leftarrow>zip (concat ?X) (concat ?T). case p of (x, y) \<Rightarrow> smooth_l1 x y)
      = (\<Sum>i<length ?X. \<Sum>p\<leftarrow>zip (?X ! i) (?T ! i). case p of (x, y) \<Rightarrow> smooth_l1 x y)"
    using assms by (intro sum_zip_concat) auto
  also have "\<dots> = (\<Sum>a<A. if m ! a then anchor_l1 (x ! a) (t ! a) else 0)"
    using assms by (intro sum.cong) (auto simp: anchor_l1_def)
  finally show ?thesis by (simp add: row_select_def)
qed

lemma loc_loss_sum:
  assumes "has_shape B A m" "has_shape B A x" "has_shape B A t"
  shows "smooth_l1_loss (masked_select m x) (masked_select m t)
       = (\<Sum>b<B. \<Sum>a<A. if m ! b ! a then anchor_l1 (x ! b ! a) (t ! b ! a) else 0)"
proof -
  let ?X = "map2 row_select m x"
  let ?T = "map2 row_select m t"
  have len: "length m = B" "length x = B" "length t = B"
    and rows: "\<And>b. b < B \<Longrightarrow> length (m ! b) = A \<and> length (x ! b) = A \<and> length (t ! b) = A"
    using assms by (simp_all add: has_shape_nth)
  have ms: "masked_select m x = concat ?X" "masked_select m t = concat ?T"
    by (simp_all add: masked_select_def row_select_def[abs_def])
  have "smooth_l1_loss (concat ?X) (concat ?T)
      = (\<Sum>i<length ?X. \<Sum>p\<leftarrow>zip (?X ! i) (?T ! i). case p of (x, y) \<Rightarrow> smooth_l1 x y)"
    unfolding smooth_l1_loss_def using len rows
    by (intro sum_zip_concat) (auto intro: length_row_select)
  also have "\<dots> = (\<Sum>b<B. \<Sum>a<A. if m ! b ! a then anchor_l1 (x ! b ! a) (t ! b ! a) else 0)"
    using len rows by (intro sum.cong) (auto simp: row_select_sum)
  finally show ?thesis by (simp add: ms)
qed

lemma normalizer_count: "normalizer label = real (sum_list (map num_pos label)) + 1 / 1000"
proof -
  have "tensor_sum (map (map of_bool) (pos_mask label)) = real (sum_list (map num_pos label))"
    unfolding tensor_sum_def pos_mask_def
    by (induction label) (simp_all add: comp_def sum_of_bool num_pos_def)
  then show ?thesis by (simp add: normalizer_def)
qed

lemma normalizer_pos: "0 < normalizer label"
  unfolding normalizer_count by (simp add: add_nonneg_pos)

lemma in_set_concat_map2_zip:
  assumes "(z, t) \<in> set (concat (map2 zip xss yss))"
  shows "\<exists>b < length xss. b < length yss \<and> z \<in> set (xss ! b) \<and> t \<in> set (yss ! b)"
proof -
  from assms obtain p where p: "p \<in> set (zip xss yss)" "(z, t) \<in> set (zip (fst p) (snd p))"
    by (auto simp: case_prod_beta)
  from p(1) obtain b where "b < length xss" "b < length yss" "p = (xss ! b, yss ! b)"
    by (auto simp: in_set_zip)
  with p(2) show ?thesis
    by (auto dest: set_zip_leftD set_zip_rightD)
qed

lemma CrossEntropyLoss_total:
  assumes "batch_ok B A C xloc xconf loc label"
  shows "\<exists>L. CrossEntropyLoss (-1) xconf (clamp_min0 label) = Inr L"
proof -
  define items where "items = filter (\<lambda>(z, t). t \<noteq> -1) (concat (map2 zip xconf (clamp_min0 label)))"
  have ok: "\<not> (t < 0 \<or> int (length z) \<le> t)" if "(z, t) \<in> set items" for z t
  proof -
    from that have "(z, t) \<in> set (concat (map2 zip xconf (clamp_min0 label)))"
      by (simp add: items_def)
    from in_set_concat_map2_zip[OF this]
    obtain b where b: "b < length xconf" "b < length (clamp_min0 label)"
      "z \<in> set (xconf ! b)" "t \<in> set (clamp_min0 label ! b)"
      by (elim exE conjE)
    have "length z = C"
      using assms b(1,3) by (auto simp: batch_ok_def list_all_iff)
    moreover from b(2,4) obtain l where l: "l \<in> set (label ! b)" "t = max l 0"
      by (auto simp: clamp_min0_def)
    moreover from l(1) b(2) have "l < int C"
      using assms by (auto simp: batch_ok_def list_all_iff clamp_min0_def)
    moreover have "0 < C" using assms by (simp add: batch_ok_def)
    ultimately show ?thesis by auto
  qed
  have "\<not> list_ex (\<lambda>(z, t). t < 0 \<or> int (length z) \<le> t) items"
    unfolding list_ex_iff using ok by blast
  then show ?thesis
    by (simp add: CrossEntropyLoss_def Let_def flip: items_def)
qed

lemma forward_eq:
  assumes "CrossEntropyLoss (-1) xconf (clamp_min0 label) = Inr L"
  shows "forward xloc xconf loc label k =
           Inr (smooth_l1_loss (masked_select (pos_mask label) xloc) (masked_select (pos_mask label) loc)
                  / normalizer label,
                tensor_sum (masked_conf_loss (Scalar L) label k) / normalizer label)"
  by (simp add: forward_def Let_def assms)

text \<open>
  C5: for every well-shaped batch \<open>forward\<close> returns, and both returned values are the
  unnormalized sums divided by the same \<open>N\<close>, the number of positive anchors of the whole
  batch plus the constant \<open>1/1000\<close>; \<open>N\<close> is positive for every batch, also without positive
  anchors, and no case distinction on the count is made.
\<close>

theorem forward_normalizes_by_positive_count:
  assumes "batch_ok B A C xloc xconf loc label"
  shows "\<exists>L. CrossEntropyLoss (-1) xconf (clamp_min0 label) = Inr L
           \<and> forward xloc xconf loc label k =
               Inr (smooth_l1_loss (masked_select (pos_mask label) xloc)
                      (masked_select (pos_mask label) loc) / normalizer label,
                    tensor_sum (masked_conf_loss (Scalar L) label k) / normalizer label)
           \<and> normalizer label = real (sum_list (map num_pos label)) + 1 / 1000
           \<and> 0 < normalizer label"
proof -
  obtain L where L: "CrossEntropyLoss (-1) xconf (clamp_min0 label) = Inr L"
    using CrossEntropyLoss_total[OF assms] by (elim exE)
  show ?thesis
    using L forward_eq[OF L, of xloc loc k] normalizer_count[of label] normalizer_pos[of label]
    by simp
qed

theorem forward_normalizes_by_positive_count_witness:
  "batch_ok 1 2 2 [[(0, 0, 0, 0), (0, 0, 0, 0)]] [[[0, 0], [0, 0]]] [[(0, 0, 0, 0), (0, 0, 0, 0)]] [[0, 0]] \<and>
   (\<exists>L. CrossEntropyLoss (-1) [[[0, 0], [0, 0]]] (clamp_min0 [[0, 0]]) = Inr L
       \<and> forward [[(0, 0, 0, 0), (0, 0, 0, 0)]] [[[0, 0], [0, 0]]] [[(0, 0, 0, 0), (0, 0, 0, 0)]] [[0, 0]] 3 =
               Inr (smooth_l1_loss (masked_select (pos_mask [[0, 0]]) [[(0, 0, 0, 0), (0, 0, 0, 0)]])
                      (masked_select (pos_mask [[0, 0]]) [[(0, 0, 0, 0), (0, 0, 0, 0)]]) / normalizer [[0, 0]],
                    tensor_sum (masked_conf_loss (Scalar L) [[0, 0]] 3) / normalizer [[0, 0]]))
   \<and> normalizer [[0, 0]] = 1 / 1000 \<and> 0 < normalizer [[0, 0]]"
  using forward_normalizes_by_positive_count[of 1 2 2 "[[(0, 0, 0, 0), (0, 0, 0, 0)]]" "[[[0, 0], [0, 0]]]"
      "[[(0, 0, 0, 0), (0, 0, 0, 0)]]" "[[0, 0]]" 3]
  by (simp add: batch_ok_def has_shape_def num_pos_def) blast

text \<open>
  C4: the localization loss returned by \<open>forward\<close> is the sum, over the anchors with a
  label above 0 only, of the smooth-L1 distances of their four coordinates, divided by
  \<open>N\<close>; anchors with a label of 0 or below do not occur in it.
\<close>

theorem localization_loss_over_positives:
  assumes "batch_ok B A C xloc xconf loc label"
  shows "\<exists>conf. forward xloc xconf loc label k =
           Inr ((\<Sum>b<B. \<Sum>a<A. if 0 < label ! b ! a then anchor_l1 (xloc ! b ! a) (loc ! b ! a) else 0)
                   / (real (sum_list (map num_pos label)) + 1 / 1000),
                conf)"
proof -
  obtain L where L: "CrossEntropyLoss (-1) xconf (clamp_min0 label) = Inr L"
    using CrossEntropyLoss_total[OF assms] by (elim exE)
  have sh: "has_shape B A (pos_mask label)" "has_shape B A xloc" "has_shape B A loc"
    using assms by (simp_all add: batch_ok_def)
  have lab: "has_shape B A label" using assms by (simp add: batch_ok_def)
  have "(\<Sum>b<B. \<Sum>a<A. if pos_mask label ! b ! a then anchor_l1 (xloc ! b ! a) (loc ! b ! a) else 0)
      = (\<Sum>b<B. \<Sum>a<A. if 0 < label ! b ! a then anchor_l1 (xloc ! b ! a) (loc ! b ! a) else 0)"
    using lab by (intro sum.cong refl) (simp add: pos_mask_def has_shape_nth)
  then show ?thesis
    using forward_eq[OF L, of xloc loc k]
    by (simp add: loc_loss_sum[OF sh] normalizer_count)
qed

theorem localization_loss_over_positives_witness:
  "batch_ok 1 2 2 [[(1, 0, 0, 0), (5, 5, 5, 5)]] [[[0, 0], [0, 0]]] [[(0, 0, 0, 0), (0, 0, 0, 0)]] [[1, 0]] \<and>
   (\<exists>conf. forward [[(1, 0, 0, 0), (5, 5, 5, 5)]] [[[0, 0], [0, 0]]] [[(0, 0, 0, 0), (0, 0, 0, 0)]] [[1, 0]] 3
       = Inr ((1 / 2) / (1 + 1 / 1000), conf))"
  using localization_loss_over_positives[of 1 2 2 "[[(1, 0, 0, 0), (5, 5, 5, 5)]]" "[[[0, 0], [0, 0]]]"
      "[[(0, 0, 0, 0), (0, 0, 0, 0)]]" "[[1, 0]]" 3]
  by (simp add: batch_ok_def has_shape_def num_pos_def anchor_l1_def smooth_l1_def eval_nat_numeral)

subsection \<open>The classification loss on concrete batches\<close>

lemma ln4: "ln (4::real) = 2 * ln 2"
proof -
  have "ln (4::real) = ln (2 * 2)" by simp
  also have "\<dots> = ln 2 + ln 2" by (rule ln_mult_pos) simp_all
  finally show ?thesis by simp
qed

lemma nll_4: "nll [0, ln 3] 0 = 2 * ln 2"
  by (simp add: nll_def ln4)

lemma nll_0: "nll [0, 0] 0 = ln 2"
  by (simp add: nll_def)

lemma nll_1: "nll [0, 0] (Suc 0) = ln 2"
  by (simp add: nll_def)

lemma mining_one_positive_two_negatives:
  "0 < L \<Longrightarrow>
   hard_negative_mining (Scalar L) (pos_mask [[1, 0, 0]]) (neg_mask [[1, 0, 0]]) 1 = [[False, True, False]]"
  by (simp add: hard_negative_mining_def argsort_def pos_mask_def neg_mask_def)

lemma masked_one_positive_two_negatives:
  "0 < L \<Longrightarrow> masked_conf_loss (Scalar L) [[1, 0, 0]] 1 = [[L, L, 0]]"
  by (simp add: masked_conf_loss_def mining_one_positive_two_negatives) (simp add: pos_mask_def)

lemma normalizer_one_positive:
  "normalizer [[1, 0, 0]] = 1001 / 1000" "normalizer [[1, -1]] = 1001 / 1000"
  by (simp_all add: normalizer_def tensor_sum_def pos_mask_def)

text \<open>
  C1: the claim is that in every sample at most \<open>k\<close> times the positive anchors of that
  sample are negative anchors that contribute to the classification loss. On a batch of
  two samples of one anchor each, with labels \<open>[[1], [0]]\<close> and \<open>k = 3\<close>, the second sample
  has no positive anchor, so the bound is 0, and its negative anchor is not marked by the
  mask. Its cross-entropy still enters the batch mean that every marked entry carries:
  changing only the class logits of that negative anchor changes the classification loss
  that \<open>forward\<close> returns from \<open>ln 2 / N\<close> to \<open>(3/2 * ln 2) / N\<close>.
\<close>

theorem unselected_negative_enters_conf_loss:
  "forward [[(0, 0, 0, 0)], [(0, 0, 0, 0)]] [[[0, 0]], [[0, 0]]] [[(0, 0, 0, 0)], [(0, 0, 0, 0)]] [[1], [0]] 3
     = Inr (0, ln 2 / (1001 / 1000))
   \<and> forward [[(0, 0, 0, 0)], [(0, 0, 0, 0)]] [[[0, 0]], [[0, ln 3]]] [[(0, 0, 0, 0)], [(0, 0, 0, 0)]] [[1], [0]] 3
     = Inr (0, (3 / 2 * ln 2) / (1001 / 1000))
   \<and> hard_negative_mining (Scalar (ln 2)) (pos_mask [[1], [0]]) (neg_mask [[1], [0]]) 3 = [[True], [False]]
   \<and> 3 * int (num_pos ([[1], [0]] ! 1)) = 0
   \<and> ln 2 / (1001 / 1000) \<noteq> (3 / 2 * ln 2) / (1001 / 1000 :: real)"
proof -
  have h: "hard_negative_mining (Scalar L) (pos_mask [[1], [0]]) (neg_mask [[1], [0]]) 3 = [[True], [False]]" for L
    by (simp add: hard_negative_mining_def argsort_def pos_mask_def neg_mask_def)
  have m: "masked_conf_loss (Scalar L) [[1], [0]] 3 = [[L], [0]]" for L
    by (simp add: masked_conf_loss_def h) (simp add: pos_mask_def)
  have n: "normalizer [[1], [0]] = 1001 / 1000"
    by (simp add: normalizer_def tensor_sum_def pos_mask_def)
  have ce1: "CrossEntropyLoss (-1) [[[0, 0]], [[0, 0]]] (clamp_min0 [[1], [0]]) = Inr (ln 2)"
    by (simp add: CrossEntropyLoss_def clamp_min0_def nll_0 nll_1)
  have ce2: "CrossEntropyLoss (-1) [[[0, 0]], [[0, ln 3]]] (clamp_min0 [[1], [0]]) = Inr (3 * ln 2 / 2)"
    by (simp add: CrossEntropyLoss_def clamp_min0_def nll_1 nll_4)
  have "forward [[(0, 0, 0, 0)], [(0, 0, 0, 0)]] [[[0, 0]], [[0, 0]]] [[(0, 0, 0, 0)], [(0, 0, 0, 0)]] [[1], [0]] 3
     = Inr (0, ln 2 / (1001 / 1000))"
    by (simp add: forward_def ce1 m n tensor_sum_def)
       (simp add: pos_mask_def masked_select_def smooth_l1_loss_def smooth_l1_def)
  moreover have "forward [[(0, 0, 0, 0)], [(0, 0, 0, 0)]] [[[0, 0]], [[0, ln 3]]] [[(0, 0, 0, 0)], [(0, 0, 0, 0)]] [[1], [0]] 3
     = Inr (0, (3 / 2 * ln 2) / (1001 / 1000))"
    by (simp add: forward_def ce2 m n tensor_sum_def)
       (simp add: pos_mask_def masked_select_def smooth_l1_loss_def smooth_l1_def)
  moreover have "3 * int (num_pos ([[1], [0]] ! 1)) = 0"
    by (simp add: num_pos_def)
  moreover have "ln 2 / (1001 / 1000) \<noteq> (3 / 2 * ln 2) / (1001 / 1000 :: real)"
    by simp
  ultimately show ?thesis using h[of "ln 2"] by blast
qed

text \<open>
  C2: the claim is that the classification loss is the sum of each selected anchor's own
  cross-entropy, divided by \<open>N\<close>. On a batch of one sample with one positive and two
  negative anchors whose own cross-entropies are \<open>ln 2\<close>, \<open>ln 4\<close> and \<open>ln 4\<close>, with
  \<open>k = 1\<close>, \<open>forward\<close> returns twice the mean of the three values over \<open>N\<close>, which is
  \<open>(10/3 * ln 2) / N\<close>; the per-anchor sum over the positive and one negative is
  \<open>(3 * ln 2) / N\<close>, whichever of the two negatives is selected.
\<close>

theorem conf_loss_is_batch_mean:
  "forward [[(0, 0, 0, 0), (0, 0, 0, 0), (0, 0, 0, 0)]] [[[0, 0], [0, ln 3], [0, ln 3]]]
       [[(0, 0, 0, 0), (0, 0, 0, 0), (0, 0, 0, 0)]] [[1, 0, 0]] 1
     = Inr (0, (10 / 3 * ln 2) / (1001 / 1000))
   \<and> per_anchor_conf_loss [[[0, 0], [0, ln 3], [0, ln 3]]] [[1, 0, 0]] [[False, True, False]]
     = (3 * ln 2) / (1001 / 1000)
   \<and> per_anchor_conf_loss [[[0, 0], [0, ln 3], [0, ln 3]]] [[1, 0, 0]] [[False, False, True]]
     = (3 * ln 2) / (1001 / 1000)
   \<and> (10 / 3 * ln 2) / (1001 / 1000) \<noteq> (3 * ln 2) / (1001 / 1000 :: real)"
proof -
  have L: "(0::real) < 5 * ln 2 / 3" by simp
  have ce: "CrossEntropyLoss (-1) [[[0, 0], [0, ln 3], [0, ln 3]]] (clamp_min0 [[1, 0, 0]])
              = Inr (5 * ln 2 / 3)"
    by (simp add: CrossEntropyLoss_def clamp_min0_def nll_1 nll_4)
  have "forward [[(0, 0, 0, 0), (0, 0, 0, 0), (0, 0, 0, 0)]] [[[0, 0], [0, ln 3], [0, ln 3]]]
       [[(0, 0, 0, 0), (0, 0, 0, 0), (0, 0, 0, 0)]] [[1, 0, 0]] 1
     = Inr (0, (10 / 3 * ln 2) / (1001 / 1000))"
    by (simp add: forward_def ce masked_one_positive_two_negatives[OF L]
        normalizer_one_positive tensor_sum_def)
       (simp add: pos_mask_def masked_select_def smooth_l1_loss_def smooth_l1_def)
  moreover have "per_anchor_conf_loss [[[0, 0], [0, ln 3], [0, ln 3]]] [[1, 0, 0]] [[False, True, False]]
     = (3 * ln 2) / (1001 / 1000)"
    by (simp add: per_anchor_conf_loss_def normalizer_one_positive tensor_sum_def nll_1 nll_4)
  moreover have "per_anchor_conf_loss [[[0, 0], [0, ln 3], [0, ln 3]]] [[1, 0, 0]] [[False, False, True]]
     = (3 * ln 2) / (1001 / 1000)"
    by (simp add: per_anchor_conf_loss_def normalizer_one_positive tensor_sum_def nll_1 nll_4)
  moreover have "(10 / 3 * ln 2) / (1001 / 1000) \<noteq> (3 * ln 2) / (1001 / 1000 :: real)"
    by simp
  ultimately show ?thesis by blast
qed

text \<open>
  C3: the claim is that a kept negative never has a smaller per-anchor loss than a
  dropped negative of the same sample. On a sample with labels \<open>[1, 0, 0]\<close> and \<open>k = 1\<close>
  the sort key of both negatives is the same batch mean, here \<open>4 * ln 2 / 3\<close>, whether the
  larger cross-entropy sits on the second or on the third anchor; the mask keeps the
  second anchor, whose own cross-entropy \<open>ln 2\<close> is below the \<open>ln 4\<close> of the dropped
  third anchor.
\<close>

theorem hard_negatives_ignore_per_anchor_loss:
  "CrossEntropyLoss (-1) [[[0, 0], [0, 0], [0, ln 3]]] (clamp_min0 [[1, 0, 0]]) = Inr (4 * ln 2 / 3)
   \<and> CrossEntropyLoss (-1) [[[0, 0], [0, ln 3], [0, 0]]] (clamp_min0 [[1, 0, 0]]) = Inr (4 * ln 2 / 3)
   \<and> hard_negative_mining (Scalar (4 * ln 2 / 3)) (pos_mask [[1, 0, 0]]) (neg_mask [[1, 0, 0]]) 1
        = [[False, True, False]]
   \<and> nll [0, 0] 0 < nll [0, ln 3] 0"
proof -
  have L: "(0::real) < 4 * ln 2 / 3" by simp
  have "CrossEntropyLoss (-1) [[[0, 0], [0, 0], [0, ln 3]]] (clamp_min0 [[1, 0, 0]]) = Inr (4 * ln 2 / 3)"
    by (simp add: CrossEntropyLoss_def clamp_min0_def nll_0 nll_1 nll_4)
  moreover have "CrossEntropyLoss (-1) [[[0, 0], [0, ln 3], [0, 0]]] (clamp_min0 [[1, 0, 0]]) = Inr (4 * ln 2 / 3)"
    by (simp add: CrossEntropyLoss_def clamp_min0_def nll_0 nll_1 nll_4)
  moreover have "nll [0, 0] 0 < nll [0, ln 3] 0"
    by (simp add: nll_0 nll_4)
  ultimately show ?thesis
    using mining_one_positive_two_negatives[OF L] by blast
qed

text \<open>
  C8: the claim is that an anchor with a label below 0 contributes nothing to either
  loss. On a sample with labels \<open>[1, -1]\<close> and \<open>k = 3\<close> the anchor of label \<open>-1\<close> is neither
  positive nor negative, yet its entry of the masked loss tensor is not zero, and
  changing only its class logits changes the classification loss that \<open>forward\<close>
  returns.
\<close>

theorem ignored_anchor_enters_conf_loss:
  "forward [[(0, 0, 0, 0), (0, 0, 0, 0)]] [[[0, 0], [0, 0]]] [[(0, 0, 0, 0), (0, 0, 0, 0)]] [[1, -1]] 3
     = Inr (0, (2 * ln 2) / (1001 / 1000))
   \<and> forward [[(0, 0, 0, 0), (0, 0, 0, 0)]] [[[0, 0], [0, ln 3]]] [[(0, 0, 0, 0), (0, 0, 0, 0)]] [[1, -1]] 3
     = Inr (0, (3 * ln 2) / (1001 / 1000))
   \<and> pos_mask [[1, -1]] = [[True, False]] \<and> neg_mask [[1, -1]] = [[False, False]]
   \<and> masked_conf_loss (Scalar (ln 2)) [[1, -1]] 3 = [[ln 2, ln 2]]
   \<and> (2 * ln 2) / (1001 / 1000) \<noteq> (3 * ln 2) / (1001 / 1000 :: real)"
proof -
  have m: "masked_conf_loss (Scalar L) [[1, -1]] 3 = [[L, L]]" for L
    by (simp add: masked_conf_loss_def hard_negative_mining_def argsort_def pos_mask_def neg_mask_def)
  have ce1: "CrossEntropyLoss (-1) [[[0, 0], [0, 0]]] (clamp_min0 [[1, -1]]) = Inr (ln 2)"
    by (simp add: CrossEntropyLoss_def clamp_min0_def nll_0 nll_1)
  have ce2: "CrossEntropyLoss (-1) [[[0, 0], [0, ln 3]]] (clamp_min0 [[1, -1]]) = Inr (3 * ln 2 / 2)"
    by (simp add: CrossEntropyLoss_def clamp_min0_def nll_0 nll_1 nll_4)
  have "forward [[(0, 0, 0, 0), (0, 0, 0, 0)]] [[[0, 0], [0, 0]]] [[(0, 0, 0, 0), (0, 0, 0, 0)]] [[1, -1]] 3
     = Inr (0, (2 * ln 2) / (1001 / 1000))"
    by (simp add: forward_def ce1 m normalizer_one_positive tensor_sum_def)
       (simp add: pos_mask_def masked_select_def smooth_l1_loss_def smooth_l1_def)
  moreover have "forward [[(0, 0, 0, 0), (0, 0, 0, 0)]] [[[0, 0], [0, ln 3]]] [[(0, 0, 0, 0), (0, 0, 0, 0)]] [[1, -1]] 3
     = Inr (0, (3 * ln 2) / (1001 / 1000))"
    by (simp add: forward_def ce2 m normalizer_one_positive tensor_sum_def)
       (simp add: pos_mask_def masked_select_def smooth_l1_loss_def smooth_l1_def)
  moreover have "(2 * ln 2) / (1001 / 1000) \<noteq> (3 * ln 2) / (1001 / 1000 :: real)"
    by simp
  moreover have "pos_mask [[1, -1]] = [[True, False]]" "neg_mask [[1, -1]] = [[False, False]]"
    by (simp_all add: pos_mask_def neg_mask_def)
  ultimately show ?thesis using m[of "ln 2"] by blast
qed

end
